theory Spec2Isabelle
  imports Main "HOL-Library.List_Lexorder" "HOL-Library.Char_ord" "HOL-Library.Multiset"
begin

section \<open>Strings and characters\<close>

text \<open>
  Python strings are modelled as \<^typ>\<open>string\<close>, one \<^typ>\<open>char\<close> per code point, so the
  model covers the code points below 256. In that range the class \<^verbatim>\<open>\d\<close> of Python's
  \<^verbatim>\<open>re\<close> is exactly \<^verbatim>\<open>[0-9]\<close>, and \<^verbatim>\<open>\w\<close> is the ASCII letters, digits and underscore
  together with the Latin-1 letters and numerics listed in \<open>word_char\<close>.
\<close>

definition newline :: char where
  "newline = CHR 0x0A"

definition digit :: "char \<Rightarrow> bool" where
  \<comment> \<open>\<^verbatim>\<open>\d\<close> and \<^verbatim>\<open>[0-9]\<close>\<close>
  "digit c = (c \<in> set ''0123456789'')"


definition letter_hyphen :: "char \<Rightarrow> bool" where
  \<comment> \<open>\<^verbatim>\<open>[a-zA-Z-]\<close>\<close>
  "letter_hyphen c = (c \<in> set ''abcdefghijklmnopqrstuvwxyzABCDEFGHIJKLMNOPQRSTUVWXYZ-'')"


definition word_char :: "char \<Rightarrow> bool" where
  \<comment> \<open>\<^verbatim>\<open>\w\<close> on a \<^verbatim>\<open>str\<close> pattern: alphanumeric code points and the underscore\<close>
  "word_char c =
     (digit c \<or> (letter_hyphen c \<and> c \<noteq> CHR ''-'') \<or> c = CHR ''_'' \<or>
      (of_char c :: nat) \<in> {0xAA, 0xB2, 0xB3, 0xB5, 0xB9, 0xBA, 0xBC, 0xBD, 0xBE} \<or>
      (0xC0 \<le> (of_char c :: nat) \<and> (of_char c :: nat) \<noteq> 0xD7 \<and> (of_char c :: nat) \<noteq> 0xF7))"

definition any_char :: "char \<Rightarrow> bool" where
  \<comment> \<open>\<^verbatim>\<open>.\<close> under \<^verbatim>\<open>re.DOTALL\<close>\<close>
  "any_char c = True"

definition strip :: "string \<Rightarrow> string \<Rightarrow> string" where
  \<comment> \<open>\<^verbatim>\<open>s.strip(chars)\<close>\<close>
  "strip chars s =
     rev (dropWhile (\<lambda>c. c \<in> set chars) (rev (dropWhile (\<lambda>c. c \<in> set chars) s)))"

definition replace_char :: "char \<Rightarrow> char \<Rightarrow> string \<Rightarrow> string" where
  \<comment> \<open>\<^verbatim>\<open>s.replace(a, b)\<close> for one-character \<^verbatim>\<open>a\<close> and \<^verbatim>\<open>b\<close>\<close>
  "replace_char a b s = map (\<lambda>c. if c = a then b else c) s"


subsection \<open>Decimal integers\<close>

datatype error = InvalidSemanticVersion | InvalidLiteral | IndexError

definition digit_val :: "char \<Rightarrow> nat" where
  "digit_val c = of_char c - 48"

definition digit_chr :: "nat \<Rightarrow> char" where
  "digit_chr d = char_of (48 + d)"


function str_of_nat :: "nat \<Rightarrow> string" where
  \<comment> \<open>\<^verbatim>\<open>str(n)\<close> and \<^verbatim>\<open>f"{n}"\<close> for a non-negative integer\<close>
  "str_of_nat n = (if n < 10 then [digit_chr n] else str_of_nat (n div 10) @ [digit_chr (n mod 10)])"
  by pat_completeness auto
termination
  by (relation "measure id") auto

declare str_of_nat.simps [simp del]

section \<open>Regular expressions: the fragment of Python's \<^verbatim>\<open>re\<close> that the two patterns use\<close>

datatype regex =
    Eps
  | Lit char
  | Cls "char \<Rightarrow> bool"
  | Seq regex regex
  | Alt regex regex
  | Opt regex
  | Star regex
  | StarLazy regex
  | Group nat regex
  | Bol
  | Eol

type_synonym groups = "nat \<rightharpoonup> string"

text \<open>
  \<open>matches inp r s g\<close> lists, in the order in which a backtracking matcher tries them,
  the ways in which \<open>r\<close> can match at the front of the remaining input \<open>s\<close>: each entry
  is the input left over together with the groups captured so far. \<open>inp\<close> is the whole
  subject string (\<^verbatim>\<open>^\<close> needs it). Greedy operators list the longer alternative first, lazy
  ones the shorter. \<^verbatim>\<open>$\<close> (without \<^verbatim>\<open>re.MULTILINE\<close>) holds at the end of the subject and
  just before a newline that ends the subject. The length test in the two stars only
  serves termination: no starred subexpression of \<open>semver_re\<close> or \<open>semantic_re\<close> matches
  the empty string.
\<close>

function matches :: "string \<Rightarrow> regex \<Rightarrow> string \<Rightarrow> groups \<Rightarrow> (string \<times> groups) list" where
  "matches inp Eps s g = [(s, g)]"
| "matches inp (Lit c) s g = (case s of [] \<Rightarrow> [] | x # xs \<Rightarrow> if x = c then [(xs, g)] else [])"
| "matches inp (Cls P) s g = (case s of [] \<Rightarrow> [] | x # xs \<Rightarrow> if P x then [(xs, g)] else [])"
| "matches inp (Seq a b) s g = concat (map (\<lambda>(s', g'). matches inp b s' g') (matches inp a s g))"
| "matches inp (Alt a b) s g = matches inp a s g @ matches inp b s g"
| "matches inp (Opt a) s g = matches inp a s g @ [(s, g)]"
| "matches inp (Star a) s g =
     concat (map (\<lambda>(s', g'). if length s' < length s then matches inp (Star a) s' g' else [])
                 (matches inp a s g)) @ [(s, g)]"
| "matches inp (StarLazy a) s g =
     (s, g) # concat (map (\<lambda>(s', g'). if length s' < length s then matches inp (StarLazy a) s' g' else [])
                          (matches inp a s g))"
| "matches inp (Group n a) s g =
     map (\<lambda>(s', g'). (s', g'(n \<mapsto> take (length s - length s') s))) (matches inp a s g)"
| "matches inp Bol s g = (if length s = length inp then [(s, g)] else [])"
| "matches inp Eol s g = (if s = [] \<or> s = [newline] then [(s, g)] else [])"
  by pat_completeness auto
termination
  by (relation "inv_image (less_than <*lex*> less_than) (\<lambda>(inp, r, s, g). (size r, length s))") auto

declare matches.simps [simp del]

definition re_match :: "regex \<Rightarrow> string \<Rightarrow> groups option" where
  \<comment> \<open>\<^verbatim>\<open>pattern.match(inp)\<close>: the first successful way to match at position 0, or \<^verbatim>\<open>None\<close>\<close>
  "re_match r inp = (case matches inp r inp Map.empty of [] \<Rightarrow> None | (s, g) # _ \<Rightarrow> Some g)"

fun seqs :: "regex list \<Rightarrow> regex" where
  "seqs [] = Eps"
| "seqs [r] = r"
| "seqs (r # rs) = Seq r (seqs rs)"

fun alts :: "regex list \<Rightarrow> regex" where
  "alts [] = Cls (\<lambda>c. False)"
| "alts [r] = r"
| "alts (r # rs) = Alt r (alts rs)"

definition lits :: "string \<Rightarrow> regex" where
  "lits s = seqs (map Lit s)"


section \<open>Semantic versions\<close>






record SemanticVersion =
  major :: nat
  minor :: nat
  patch :: nat
  prerelease :: "string option"
  build_metadata :: "string option"



definition SemanticVersion_str :: "SemanticVersion \<Rightarrow> string" where
  "SemanticVersion_str self =
     (let ver = str_of_nat (major self) @ ''.'' @ str_of_nat (minor self) @ ''.'' @ str_of_nat (patch self);
          ver = (case prerelease self of None \<Rightarrow> ver | Some p \<Rightarrow> ver @ ''-'' @ p);
          ver = (case build_metadata self of None \<Rightarrow> ver | Some b \<Rightarrow> ver @ ''+'' @ b)
      in ver)"


datatype ReleaseType = Major | Minor | Patch

fun bump :: "SemanticVersion \<Rightarrow> ReleaseType \<Rightarrow> SemanticVersion" where
  \<comment> \<open>the \<^verbatim>\<open>match args.release_type\<close> statement of \<^verbatim>\<open>release\<close>, which updates \<^verbatim>\<open>cur_ver\<close> in place\<close>
  "bump cur_ver Major = cur_ver\<lparr>major := major cur_ver + 1, minor := 0, patch := 0\<rparr>"
| "bump cur_ver Minor = cur_ver\<lparr>minor := minor cur_ver + 1, patch := 0\<rparr>"
| "bump cur_ver Patch = cur_ver\<lparr>patch := patch cur_ver + 1\<rparr>"

section \<open>Conventional commits\<close>

definition semantic_re :: regex where
  \<comment> \<open>compiled with \<^verbatim>\<open>re.DOTALL\<close>: the dot of the description matches newlines too\<close>
  "semantic_re =
     seqs [Bol,
           Group 1 (alts [lits ''feat'', lits ''fix'', lits ''refactor'', lits ''build'']),
           Group 2 (seqs [Opt (Lit CHR ''(''), StarLazy (Cls word_char), Opt (Lit CHR '')'')]),
           Lit CHR '':'',
           Group 3 (StarLazy (Cls any_char)),
           Eol]"

record ConventionalCommit =
  type :: string
  scope :: string
  description :: string

definition ConventionalCommit_parse :: "string \<Rightarrow> ConventionalCommit option" where
  \<comment> \<open>The three groups of \<open>semantic_re\<close> take part in every match, so the last case is
     never reached and the test \<^verbatim>\<open>c.description is not None\<close> always holds.\<close>
  "ConventionalCommit_parse str =
     (case re_match semantic_re str of
        None \<Rightarrow> None
      | Some m \<Rightarrow>
          (case (m 1, m 2, m 3) of
             (Some t, Some sc, Some d) \<Rightarrow>
               Some \<lparr>type = t, scope = sc,
                     description = replace_char newline CHR '' '' (strip ('' '' @ [newline]) d)\<rparr>
           | _ \<Rightarrow> None))"

definition ConventionalCommit_str :: "ConventionalCommit \<Rightarrow> string" where
  \<comment> \<open>\<^verbatim>\<open>ConventionalCommit.__str__\<close>\<close>
  "ConventionalCommit_str self =
     (let cc = type self;
          cc = (if length (scope self) > 0 then cc @ ''('' @ scope self @ '')'' else cc);
          cc = cc @ '':'';
          cc = cc @ '' '' @ description self
      in cc)"

section \<open>The changelog builder\<close>

text \<open>
  The repository is represented by what the program reads from it: \<^verbatim>\<open>repo.tags\<close>, a list
  of tag references in the order in which GitPython returns them, and
  \<^verbatim>\<open>repo.iter_commits()\<close>, the commits of the current branch, newest first.
\<close>

record Commit =
  hexsha :: string
  message :: string

record TagReference =
  name :: string
  commit :: Commit

fun find_tag_by_name :: "TagReference list \<Rightarrow> string \<Rightarrow> TagReference option" where
  "find_tag_by_name [] nm = None"
| "find_tag_by_name (r # rs) nm =
     (if name r = nm \<or> name r = ''v'' @ nm then Some r else find_tag_by_name rs nm)"

definition last_tag :: "TagReference list \<Rightarrow> error + TagReference" where
  \<comment> \<open>\<^verbatim>\<open>repo.tags.pop()\<close>: the last element; \<^verbatim>\<open>IndexError\<close> on an empty list\<close>
  "last_tag tags = (if tags = [] then Inl IndexError else Inr (last tags))"

fun iter_commits_to :: "Commit list \<Rightarrow> string option \<Rightarrow> Commit list" where
  \<comment> \<open>the generator, as the list of what it yields; \<open>sha\<close> may be \<^verbatim>\<open>None\<close>, which no
     \<^verbatim>\<open>hexsha\<close> equals\<close>
  "iter_commits_to [] sha = []"
| "iter_commits_to (c # rest) sha =
     (if Some (hexsha c) \<noteq> sha then c # iter_commits_to rest sha else [])"

fun classify_all :: "Commit list \<Rightarrow> ConventionalCommit list" where
  \<comment> \<open>the loop of \<^verbatim>\<open>change_log\<close> that fills \<^verbatim>\<open>ccs\<close>\<close>
  "classify_all [] = []"
| "classify_all (i # rest) =
     (case ConventionalCommit_parse (message i) of
        None \<Rightarrow> classify_all rest
      | Some cc \<Rightarrow> cc # classify_all rest)"

function groupby :: "('a \<Rightarrow> 'k) \<Rightarrow> 'a list \<Rightarrow> ('k \<times> 'a list) list" where
  \<comment> \<open>\<^verbatim>\<open>itertools.groupby(xs, key)\<close>, read to its end: one group per maximal run of equal keys\<close>
  "groupby key [] = []"
| "groupby key (x # xs) =
     (key x, x # takeWhile (\<lambda>y. key y = key x) xs) # groupby key (dropWhile (\<lambda>y. key y = key x) xs)"
  by pat_completeness auto
termination
  by (relation "measure (\<lambda>(key, xs). length xs)") (auto simp: length_dropWhile_le less_Suc_eq_le)

type_synonym RawChangelog = "(string \<times> ConventionalCommit list) list"

definition group_by_type :: "ConventionalCommit list \<Rightarrow> RawChangelog" where
  \<comment> \<open>the last three lines of \<^verbatim>\<open>change_log\<close>; \<^verbatim>\<open>sorted\<close> is stable, as \<^const>\<open>sort_key\<close> is, and
     compares the \<^verbatim>\<open>type\<close> strings code point by code point\<close>
  "group_by_type ccs = groupby type (sort_key type ccs)"

definition change_log :: "SemanticVersion \<Rightarrow> TagReference list \<Rightarrow> Commit list \<Rightarrow> error + RawChangelog" where
  "change_log cur_ver tags commits =
     (case (case find_tag_by_name tags (SemanticVersion_str cur_ver) of
              None \<Rightarrow> (case last_tag tags of Inl e \<Rightarrow> Inl e | Inr t \<Rightarrow> Inr (Some t))
            | Some t \<Rightarrow> Inr (Some t)) of
        Inl e \<Rightarrow> Inl e
      | Inr r \<Rightarrow>
          (let init_sha = (case r of Some t \<Rightarrow> Some (hexsha (commit t)) | None \<Rightarrow> None);
               ccs = classify_all (iter_commits_to commits init_sha)
           in Inr (group_by_type ccs)))"

section \<open>Rendering and the release\<close>




section \<open>The grammar of the specification\<close>









section \<open>The words a regular expression matches\<close>


fun lang :: "regex \<Rightarrow> string set" where
  "lang Eps = {[]}"
| "lang (Lit c) = {[c]}"
| "lang (Cls P) = {[c] |c. P c}"
| "lang (Seq a b) = {u @ v |u v. u \<in> lang a \<and> v \<in> lang b}"
| "lang (Alt a b) = lang a \<union> lang b"
| "lang (Opt a) = insert [] (lang a)"
| "lang (Star a) = {concat ws |ws. set ws \<subseteq> lang a}"
| "lang (StarLazy a) = {concat ws |ws. set ws \<subseteq> lang a}"
| "lang (Group n a) = lang a"
| "lang Bol = {}"
| "lang Eol = {}"






section \<open>Properties\<close>

subsection \<open>Bumping a version\<close>

text \<open>
  C1, as the code has it: a bump sets the numeric components to \<open>(major + 1, 0, 0)\<close>,
  \<open>(major, minor + 1, 0)\<close> or \<open>(major, minor, patch + 1)\<close> and leaves the prerelease and
  build-metadata fields as they were; being a total function, it never fails.
\<close>

theorem bump_components:
  "(major (bump v Major), minor (bump v Major), patch (bump v Major)) = (major v + 1, 0, 0) \<and>
   (major (bump v Minor), minor (bump v Minor), patch (bump v Minor)) = (major v, minor v + 1, 0) \<and>
   (major (bump v Patch), minor (bump v Patch), patch (bump v Patch)) = (major v, minor v, patch v + 1) \<and>
   prerelease (bump v t) = prerelease v \<and> build_metadata (bump v t) = build_metadata v"
  by (cases t) simp_all

text \<open>
  C1 as stated fails: bumping \<open>1.2.3-rc1+b1\<close> keeps \<open>rc1\<close> and \<open>b1\<close>, so the result is
  not \<open>{2, 0, 0, None, None}\<close>.
\<close>

theorem bump_keeps_prerelease_counterexample:
  "bump \<lparr>major = 1, minor = 2, patch = 3, prerelease = Some ''rc1'', build_metadata = Some ''b1''\<rparr> Major
     = \<lparr>major = 2, minor = 0, patch = 0, prerelease = Some ''rc1'', build_metadata = Some ''b1''\<rparr> \<and>
   bump \<lparr>major = 1, minor = 2, patch = 3, prerelease = Some ''rc1'', build_metadata = Some ''b1''\<rparr> Major
     \<noteq> \<lparr>major = 2, minor = 0, patch = 0, prerelease = None, build_metadata = None\<rparr>"
  by simp

subsection \<open>Auxiliary facts about the changelog builder\<close>

lemma iter_commits_to_takeWhile:
  "iter_commits_to commits sha = takeWhile (\<lambda>c. Some (hexsha c) \<noteq> sha) commits"
  by (induction commits) simp_all

lemma groupby_keys_subset: "fst ` set (groupby key xs) \<subseteq> key ` set xs"
proof (induction key xs rule: groupby.induct)
  case (1 key)
  then show ?case by simp
next
  case (2 key x xs)
  have "set (dropWhile (\<lambda>y. key y = key x) xs) \<subseteq> set xs"
    by (simp add: set_dropWhileD subsetI)
  with 2 show ?case by auto
qed

lemma sorted_takeWhile_key:
  fixes key :: "'a \<Rightarrow> 'k::linorder"
  assumes "sorted (map key xs)" "\<forall>y\<in>set xs. k \<le> key y"
  shows "takeWhile (\<lambda>y. key y = k) xs = filter (\<lambda>y. key y = k) xs"
  using assms
proof (induction xs)
  case Nil
  then show ?case by simp
next
  case (Cons a xs)
  show ?case
  proof (cases "key a = k")
    case True
    with Cons show ?thesis by simp
  next
    case False
    with Cons.prems have "k < key a" by auto
    with Cons.prems have "\<forall>y\<in>set xs. key y \<noteq> k" by fastforce
    then have "filter (\<lambda>y. key y = k) xs = []" by (simp add: filter_empty_conv)
    with False show ?thesis by simp
  qed
qed

lemma sorted_dropWhile_key:
  fixes key :: "'a \<Rightarrow> 'k::linorder"
  assumes "sorted (map key xs)" "\<forall>y\<in>set xs. k \<le> key y"
  shows "\<forall>y\<in>set (dropWhile (\<lambda>y. key y = k) xs). k < key y"
  using assms
proof (induction xs)
  case Nil
  then show ?case by simp
next
  case (Cons a xs)
  show ?case
  proof (cases "key a = k")
    case True
    with Cons show ?thesis by simp
  next
    case False
    with Cons.prems have "k < key a" by auto
    with Cons.prems have "\<forall>y\<in>set xs. k < key y" by fastforce
    with False \<open>k < key a\<close> show ?thesis by simp
  qed
qed

lemma groupby_sorted_group:
  fixes key :: "'a \<Rightarrow> 'k::linorder"
  assumes "sorted (map key xs)" "(k, d) \<in> set (groupby key xs)"
  shows "d = filter (\<lambda>y. key y = k) xs"
  using assms
proof (induction key xs rule: groupby.induct)
  case (1 key)
  then show ?case by simp
next
  case (2 key x xs)
  let ?tw = "takeWhile (\<lambda>y. key y = key x) xs"
  let ?dw = "dropWhile (\<lambda>y. key y = key x) xs"
  from "2.prems"(1) have sx: "sorted (map key xs)" and lb: "\<forall>y\<in>set xs. key x \<le> key y"
    by auto
  have tw: "?tw = filter (\<lambda>y. key y = key x) xs"
    by (rule sorted_takeWhile_key [OF sx lb])
  have dw: "\<forall>y\<in>set ?dw. key x < key y"
    by (rule sorted_dropWhile_key [OF sx lb])
  from "2.prems"(2) have "(k, d) = (key x, x # ?tw) \<or> (k, d) \<in> set (groupby key ?dw)"
    by simp
  then consider "k = key x" "d = x # ?tw" | "(k, d) \<in> set (groupby key ?dw)"
    by blast
  then show ?case
  proof cases
    case 1
    from 1 have "d = x # filter (\<lambda>y. key y = key x) xs"
      using tw by (simp only:)
    also have "\<dots> = filter (\<lambda>y. key y = key x) (x # xs)"
      by simp
    finally show ?thesis unfolding 1(1) .
  next
    case 2
    have sd: "sorted (map key ?dw)"
      using sorted_dropWhile [OF sx, of "\<lambda>k. k = key x"] by (simp add: dropWhile_map comp_def)
    from "2.IH" [OF sd 2] have d: "d = filter (\<lambda>y. key y = k) ?dw" .
    from 2 have "k \<in> fst ` set (groupby key ?dw)" by force
    with groupby_keys_subset [of key ?dw] have "k \<in> key ` set ?dw" by blast
    with dw have kx: "key x < k" by blast
    have "\<forall>y\<in>set ?tw. key y \<noteq> k"
    proof
      fix y assume "y \<in> set ?tw"
      then have "key y = key x" by (rule set_takeWhileD [THEN conjunct2])
      with kx show "key y \<noteq> k" by simp
    qed
    then have e: "filter (\<lambda>y. key y = k) ?tw = []"
      by (simp add: filter_empty_conv)
    have "filter (\<lambda>y. key y = k) (?tw @ ?dw) = filter (\<lambda>y. key y = k) ?dw"
      unfolding filter_append e by simp
    then have eq: "filter (\<lambda>y. key y = k) xs = filter (\<lambda>y. key y = k) ?dw"
      by (simp only: takeWhile_dropWhile_id)
    from kx have "filter (\<lambda>y. key y = k) (x # xs) = filter (\<lambda>y. key y = k) xs"
      by simp
    also note eq
    also note d [symmetric]
    finally show ?thesis by (rule sym)
  qed
qed

lemma groupby_sorted_keys:
  fixes key :: "'a \<Rightarrow> 'k::linorder"
  assumes "sorted (map key xs)"
  shows "sorted_wrt (<) (map fst (groupby key xs)) \<and> set (map fst (groupby key xs)) = key ` set xs"
  using assms
proof (induction key xs rule: groupby.induct)
  case (1 key)
  then show ?case by simp
next
  case (2 key x xs)
  let ?tw = "takeWhile (\<lambda>y. key y = key x) xs"
  let ?dw = "dropWhile (\<lambda>y. key y = key x) xs"
  from "2.prems"(1) have sx: "sorted (map key xs)" and lb: "\<forall>y\<in>set xs. key x \<le> key y"
    by auto
  have dw: "\<forall>y\<in>set ?dw. key x < key y"
    by (rule sorted_dropWhile_key [OF sx lb])
  have sd: "sorted (map key ?dw)"
    using sorted_dropWhile [OF sx, of "\<lambda>k. k = key x"] by (simp add: dropWhile_map comp_def)
  from "2.IH" [OF sd]
  have ih1: "sorted_wrt (<) (map fst (groupby key ?dw))"
    and ih2: "set (map fst (groupby key ?dw)) = key ` set ?dw" by auto
  have "set xs = set ?tw \<union> set ?dw"
    by (metis set_append takeWhile_dropWhile_id)
  moreover have "key ` set ?tw \<subseteq> {key x}"
    by (auto dest: set_takeWhileD)
  ultimately have "key ` set (x # xs) = insert (key x) (key ` set ?dw)"
    by auto
  with ih1 ih2 dw show ?case by auto
qed

lemma group_by_type_group:
  assumes "(t, d) \<in> set (group_by_type ccs)"
  shows "d = filter (\<lambda>c. type c = t) ccs"
proof -
  have "d = filter (\<lambda>c. type c = t) (sort_key type ccs)"
    using assms unfolding group_by_type_def
    by (intro groupby_sorted_group) simp_all
  then show ?thesis by (simp only: sort_key_stable)
qed

lemma group_by_type_keys:
  "sorted_wrt (<) (map fst (group_by_type ccs)) \<and> set (map fst (group_by_type ccs)) = type ` set ccs"
  using groupby_sorted_keys [of type "sort_key type ccs"]
  by (simp add: group_by_type_def)

lemma classify_all_map_filter:
  "classify_all cs = List.map_filter ConventionalCommit_parse (map message cs)"
  by (induction cs) (simp_all add: map_filter_simps split: option.splits)

lemma change_log_no_tags: "change_log cur_ver [] commits = Inl IndexError"
  by (simp add: change_log_def last_tag_def)


subsection \<open>The boundary walk\<close>

text \<open>
  C5: for a commit stream (newest first) and a defined boundary identifier, the commits in
  scope are the prefix of the stream before the first commit that carries the boundary
  identifier: that commit is excluded and nothing after it is reached. When no commit
  carries the identifier, the whole stream is in scope.
\<close>

theorem iter_commits_to_boundary:
  "(sha \<in> hexsha ` set commits \<longrightarrow>
      (\<exists>b rest. commits = iter_commits_to commits (Some sha) @ b # rest \<and> hexsha b = sha \<and>
                 sha \<notin> hexsha ` set (iter_commits_to commits (Some sha)))) \<and>
   (sha \<notin> hexsha ` set commits \<longrightarrow> iter_commits_to commits (Some sha) = commits)"
proof (induction commits)
  case Nil
  then show ?case by simp
next
  case (Cons c commits)
  show ?case
  proof (cases "hexsha c = sha")
    case True
    then show ?thesis by auto
  next
    case False
    with Cons show ?thesis by (auto simp: Cons_eq_append_conv)
  qed
qed

text \<open>
  The stream \<open>[c5, c4, c3, c2, c1]\<close> with boundary \<open>c2\<close> gives \<open>[c5, c4, c3]\<close>; a stream
  without \<open>c2\<close> is taken whole.
\<close>

theorem iter_commits_to_boundary_witness:
  "iter_commits_to [\<lparr>hexsha = ''c5'', message = ''e''\<rparr>, \<lparr>hexsha = ''c4'', message = ''d''\<rparr>,
                    \<lparr>hexsha = ''c3'', message = ''c''\<rparr>, \<lparr>hexsha = ''c2'', message = ''b''\<rparr>,
                    \<lparr>hexsha = ''c1'', message = ''a''\<rparr>] (Some ''c2'')
     = [\<lparr>hexsha = ''c5'', message = ''e''\<rparr>, \<lparr>hexsha = ''c4'', message = ''d''\<rparr>,
        \<lparr>hexsha = ''c3'', message = ''c''\<rparr>] \<and>
   iter_commits_to [\<lparr>hexsha = ''c5'', message = ''e''\<rparr>, \<lparr>hexsha = ''c4'', message = ''d''\<rparr>] (Some ''c2'')
     = [\<lparr>hexsha = ''c5'', message = ''e''\<rparr>, \<lparr>hexsha = ''c4'', message = ''d''\<rparr>]"
  using iter_commits_to_boundary [of "''c2''" "[\<lparr>hexsha = ''c5'', message = ''e''\<rparr>, \<lparr>hexsha = ''c4'', message = ''d''\<rparr>,
                    \<lparr>hexsha = ''c3'', message = ''c''\<rparr>, \<lparr>hexsha = ''c2'', message = ''b''\<rparr>,
                    \<lparr>hexsha = ''c1'', message = ''a''\<rparr>]"]
        iter_commits_to_boundary [of "''c2''" "[\<lparr>hexsha = ''c5'', message = ''e''\<rparr>, \<lparr>hexsha = ''c4'', message = ''d''\<rparr>]"]
  by simp

subsection \<open>Grouping\<close>

text \<open>
  C6: the groups of a list of classified commits have strictly ascending category names,
  the names are exactly the categories that occur in the list (so a category without a
  commit has no group), and each group is non-empty and holds exactly the commits of its
  category, as often as they occur.
\<close>

theorem group_by_type_groups:
  "sorted_wrt (<) (map fst (group_by_type ccs)) \<and>
   set (map fst (group_by_type ccs)) = type ` set ccs \<and>
   (\<forall>(t, d) \<in> set (group_by_type ccs). d \<noteq> [] \<and> mset d = filter_mset (\<lambda>c. type c = t) (mset ccs))"
proof (intro conjI ballI)
  show "sorted_wrt (<) (map fst (group_by_type ccs))"
    using group_by_type_keys by blast
  show "set (map fst (group_by_type ccs)) = type ` set ccs"
    using group_by_type_keys by blast
  fix g assume g: "g \<in> set (group_by_type ccs)"
  obtain t d where td: "g = (t, d)" by (cases g)
  from g td have d: "d = filter (\<lambda>c. type c = t) ccs"
    by (simp add: group_by_type_group)
  from g td have "t \<in> set (map fst (group_by_type ccs))" by force
  then have "t \<in> type ` set ccs" using group_by_type_keys by blast
  then have "filter (\<lambda>c. type c = t) ccs \<noteq> []"
    by (auto simp: filter_empty_conv)
  with d td show "case g of (t, d) \<Rightarrow> d \<noteq> [] \<and> mset d = filter_mset (\<lambda>c. type c = t) (mset ccs)"
    by simp
qed

text \<open>
  Commits classified \<open>[fix, feat, fix, build]\<close> are grouped as \<open>build\<close>, \<open>feat\<close>, \<open>fix\<close>.
\<close>

theorem group_by_type_groups_witness:
  "group_by_type [\<lparr>type = ''fix'', scope = '''', description = ''a''\<rparr>,
                  \<lparr>type = ''feat'', scope = '''', description = ''b''\<rparr>,
                  \<lparr>type = ''fix'', scope = '''', description = ''c''\<rparr>,
                  \<lparr>type = ''build'', scope = '''', description = ''d''\<rparr>]
     = [(''build'', [\<lparr>type = ''build'', scope = '''', description = ''d''\<rparr>]),
        (''feat'', [\<lparr>type = ''feat'', scope = '''', description = ''b''\<rparr>]),
        (''fix'', [\<lparr>type = ''fix'', scope = '''', description = ''a''\<rparr>,
                   \<lparr>type = ''fix'', scope = '''', description = ''c''\<rparr>])] \<and>
   sorted_wrt (<) [''build'', ''feat'', ''fix'']"
  using group_by_type_groups [of "[\<lparr>type = ''fix'', scope = '''', description = ''a''\<rparr>,
                  \<lparr>type = ''feat'', scope = '''', description = ''b''\<rparr>,
                  \<lparr>type = ''fix'', scope = '''', description = ''c''\<rparr>,
                  \<lparr>type = ''build'', scope = '''', description = ''d''\<rparr>]"]
  by (simp add: group_by_type_def)

text \<open>
  C10: inside each group the classified commits stand in the order in which the commit
  stream delivered them: the group of category \<open>t\<close> is the subsequence of the classified
  stream with that category, because \<^verbatim>\<open>sorted\<close> is stable and \<^verbatim>\<open>groupby\<close> keeps runs intact.
\<close>

theorem group_order_follows_stream:
  assumes "(t, d) \<in> set (group_by_type (classify_all cs))"
  shows "d = filter (\<lambda>c. type c = t) (List.map_filter ConventionalCommit_parse (map message cs))"
  using group_by_type_group [OF assms] by (simp only: classify_all_map_filter)

text \<open>
  Two \<open>fix\<close> commits around a \<open>feat\<close> and an unmatched message keep their stream order.
\<close>

theorem group_order_follows_stream_witness:
  "(''fix'', [\<lparr>type = ''fix'', scope = '''', description = ''y2''\<rparr>,
               \<lparr>type = ''fix'', scope = ''(ui)'', description = ''y1''\<rparr>])
     \<in> set (group_by_type (classify_all
              [\<lparr>hexsha = ''c4'', message = ''fix: y2''\<rparr>, \<lparr>hexsha = ''c3'', message = ''feat: x''\<rparr>,
               \<lparr>hexsha = ''c2'', message = ''docs: z''\<rparr>, \<lparr>hexsha = ''c1'', message = ''fix(ui): y1''\<rparr>])) \<and>
   [\<lparr>type = ''fix'', scope = '''', description = ''y2''\<rparr>,
    \<lparr>type = ''fix'', scope = ''(ui)'', description = ''y1''\<rparr>]
     = filter (\<lambda>c. type c = ''fix'')
         (List.map_filter ConventionalCommit_parse
            (map message [\<lparr>hexsha = ''c4'', message = ''fix: y2''\<rparr>, \<lparr>hexsha = ''c3'', message = ''feat: x''\<rparr>,
               \<lparr>hexsha = ''c2'', message = ''docs: z''\<rparr>, \<lparr>hexsha = ''c1'', message = ''fix(ui): y1''\<rparr>]))"
proof -
  have h: "(''fix'', [\<lparr>type = ''fix'', scope = '''', description = ''y2''\<rparr>,
               \<lparr>type = ''fix'', scope = ''(ui)'', description = ''y1''\<rparr>])
     \<in> set (group_by_type (classify_all
              [\<lparr>hexsha = ''c4'', message = ''fix: y2''\<rparr>, \<lparr>hexsha = ''c3'', message = ''feat: x''\<rparr>,
               \<lparr>hexsha = ''c2'', message = ''docs: z''\<rparr>, \<lparr>hexsha = ''c1'', message = ''fix(ui): y1''\<rparr>]))"
    by code_simp
  from h group_order_follows_stream [OF h] show ?thesis by (rule conjI)
qed

subsection \<open>A repository without tags\<close>

text \<open>
  C2 at a repository without tags: \<^verbatim>\<open>repo.tags.pop()\<close> raises \<^verbatim>\<open>IndexError\<close> on the empty
  list, so building the changelog fails instead of taking the whole stream. The test
  \<^verbatim>\<open>r is not None\<close> that follows in \<^verbatim>\<open>change_log\<close> is never reached with \<^verbatim>\<open>None\<close>.
\<close>

theorem change_log_no_tags_fails:
  "change_log \<lparr>major = 1, minor = 2, patch = 3, prerelease = None, build_metadata = None\<rparr> []
     [\<lparr>hexsha = ''c1'', message = ''feat: x''\<rparr>] = Inl IndexError"
  by (simp add: change_log_def last_tag_def)

subsection \<open>Rendering a classified commit\<close>

text \<open>
  C8 at \<^verbatim>\<open>feat(api): add endpoint\<close>: the scope group captures the parentheses, and
  \<^verbatim>\<open>__str__\<close> adds a second pair, so the rendering is \<^verbatim>\<open>feat((api)): add endpoint\<close>.
\<close>

theorem render_double_parens:
  "map_option ConventionalCommit_str (ConventionalCommit_parse ''feat(api): add endpoint'')
     = Some ''feat((api)): add endpoint''"
  by code_simp

subsection \<open>Auxiliary facts about \<^verbatim>\<open>strip\<close> and \<^verbatim>\<open>replace\<close>\<close>





subsection \<open>The stored description\<close>




subsection \<open>The order of the steps of a release\<close>




subsection \<open>The matcher and the language of an expression\<close>






lemma lang_Lit_Seq: "lang (Seq (Lit c) r) = {c # v |v. v \<in> lang r}"
  by auto


lemma lang_Seq_iff: "w \<in> lang (Seq a b) \<longleftrightarrow> (\<exists>u v. w = u @ v \<and> u \<in> lang a \<and> v \<in> lang b)"
  by auto



lemma digit_not_letter: "digit c \<Longrightarrow> \<not> letter_hyphen c"
  by (auto simp: digit_def letter_hyphen_def)





subsection \<open>The matches of \<open>semver_re\<close>\<close>
















subsection \<open>Decimal numerals\<close>




lemma foldl_digits_ge: "a \<le> foldl (\<lambda>a c. 10 * a + digit_val c) a cs"
proof (induction cs arbitrary: a)
  case Nil
  then show ?case by simp
next
  case (Cons c cs)
  have "a \<le> 10 * a + digit_val c" by simp
  also have "\<dots> \<le> foldl (\<lambda>a c. 10 * a + digit_val c) (10 * a + digit_val c) cs" by (rule Cons.IH)
  finally show ?case by simp
qed
























subsection \<open>Serialising a parsed version\<close>




subsection \<open>The recogniser of the specification\<close>
















subsection \<open>What the parser accepts\<close>




end
